theory Spec2Isabelle
  imports Main
begin

section \<open>JavaScript values\<close>

text \<open>
  The values that flow through the library are opaque JavaScript values. Only two
  operations of the language are applied to them by \<^verbatim>\<open>src/index.tsx\<close>: the strict
  equality \<^verbatim>\<open>===\<close> (in \<^verbatim>\<open>isEquals\<close>) and the conversion to a boolean (the test
  \<^verbatim>\<open>!state\<close> in \<^verbatim>\<open>useModel\<close>). Finite numbers are represented by integers, \<^verbatim>\<open>NaN\<close>
  is a value of its own, and every object (array, function, plain object) is a
  reference \<open>JRef\<close> compared by identity.
\<close>

datatype jsval =
    JUndefined
  | JNull
  | JBool bool
  | JNum int
  | JNaN
  | JStr string
  | JRef nat

text \<open>\<^verbatim>\<open>ToBoolean\<close>: the falsy values are undefined, null, false, 0, NaN and the empty string.\<close>

fun truthy :: "jsval \<Rightarrow> bool" where
  "truthy JUndefined = False"
| "truthy JNull = False"
| "truthy (JBool b) = b"
| "truthy (JNum n) = (n \<noteq> 0)"
| "truthy JNaN = False"
| "truthy (JStr s) = (s \<noteq> [])"
| "truthy (JRef r) = True"

text \<open>\<^verbatim>\<open>a === b\<close>: same type and same value, same reference for objects; NaN equals nothing.\<close>

definition strict_eq :: "jsval \<Rightarrow> jsval \<Rightarrow> bool" where
  "strict_eq a b = (a \<noteq> JNaN \<and> a = b)"

text \<open>A thrown value: the \<^verbatim>\<open>Error\<close> objects the library creates, or anything a callback throws.\<close>

datatype exn = Error string | Thrown jsval

section \<open>The equality comparator\<close>

text \<open>
  \<^verbatim>\<open>
  function isEquals(v1: unknown[], v2: unknown[]) {
    if (v1.length !== v2.length) { return false; }
    return v1.every((v, i) => v === v2[i]);
  }
  \<close>
  Arrays are dense lists. \<open>index\<close> is the read \<^verbatim>\<open>v2[i]\<close>, which is undefined out of range;
  \<open>every\<close> is \<^verbatim>\<open>Array.prototype.every\<close> with the element and its position.
\<close>

definition index :: "jsval list \<Rightarrow> nat \<Rightarrow> jsval" where
  "index vs i = (if i < length vs then vs ! i else JUndefined)"

fun every_from :: "nat \<Rightarrow> (jsval \<Rightarrow> nat \<Rightarrow> bool) \<Rightarrow> jsval list \<Rightarrow> bool" where
  "every_from i p [] = True"
| "every_from i p (v # vs) = (if p v i then every_from (Suc i) p vs else False)"

definition every :: "(jsval \<Rightarrow> nat \<Rightarrow> bool) \<Rightarrow> jsval list \<Rightarrow> bool" where
  "every p vs = every_from 0 p vs"

definition isEquals :: "jsval list \<Rightarrow> jsval list \<Rightarrow> bool" where
  "isEquals v1 v2 =
     (if length v1 \<noteq> length v2 then False
      else every (\<lambda>v i. strict_eq v (index v2 i)) v1)"

section \<open>Models and the Processor\<close>

text \<open>
  A model is a function object: it has an identity, a \<^verbatim>\<open>name\<close>, and a body. The body
  may use hooks of the component that calls it, so it is a state transformer over
  the hook state \<open>'h\<close> of that component, and it may throw. Its mutable property
  \<^verbatim>\<open>context\<close> lives in the store (see \<open>context_slot\<close> below).
\<close>

record 'h model =
  ident :: nat
  name :: string
  body :: "jsval list \<Rightarrow> 'h \<Rightarrow> (exn + jsval) \<times> 'h"

text \<open>
  The props of the Processor. \<open>args\<close> is a reference to an array object or absent;
  the array heap \<open>nat \<Rightarrow> jsval list\<close> gives the contents of the array object at each
  address. \<open>memo\<close> is a boolean or absent. (The prop \<^verbatim>\<open>onChange\<close> is the report channel;
  it is the field \<open>effect\<close> of the Processor's state below.)
\<close>

record 'h ProcessorProps =
  model :: "'h model"
  args :: "nat option"
  memo :: "bool option"







section \<open>Container\<close>

text \<open>
  \<^verbatim>\<open>
  type Subscriber = () => void;
  class Container<V> {
    private subscribers = new Set<Subscriber>();
    constructor(public state?: V) {}
    public notify() { this.subscribers.forEach((sub) => sub()); }
    public sub(sub: Subscriber) { this.subscribers.add(sub); }
    public unsub(sub: Subscriber) { this.subscribers.delete(sub); }
  }
  \<close>
  A subscriber is a function object, known by its identity. A JavaScript \<^verbatim>\<open>Set\<close> keeps
  its elements in insertion order without duplicates: \<^verbatim>\<open>add\<close> of a present element
  changes nothing, \<^verbatim>\<open>delete\<close> removes the element.
\<close>

type_synonym subscriber = nat

record container =
  state :: jsval
  subscribers :: "subscriber list"

definition new_Container :: "jsval \<Rightarrow> container" where
  "new_Container v = \<lparr>state = v, subscribers = []\<rparr>"


definition unsub :: "container \<Rightarrow> subscriber \<Rightarrow> container" where
  "unsub c s = c\<lparr>subscribers := removeAll s (subscribers c)\<rparr>"

text \<open>
  What a subscriber does when it is called is given by a listener environment: the
  behaviour of each function object, on the argument vector it is called with, reading
  the container it closes over and transforming the rest of the world \<open>'w\<close>; it returns
  the exception it throws, if any. Listeners do not subscribe or unsubscribe on the
  container while it notifies (the only listener the library registers, the one of
  \<^verbatim>\<open>useModel\<close>, does not). A call is logged with the arguments passed.
\<close>

type_synonym 'w listener = "jsval list \<Rightarrow> container \<Rightarrow> 'w \<Rightarrow> exn option \<times> 'w"

type_synonym call = "subscriber \<times> jsval list"

text \<open>\<^verbatim>\<open>forEach\<close>: the callback on each element in order; an exception ends the iteration.\<close>

fun forEach :: "('a \<Rightarrow> 'w \<Rightarrow> exn option \<times> 'w) \<Rightarrow> 'a list \<Rightarrow> 'w \<Rightarrow> exn option \<times> 'w" where
  "forEach f [] w = (None, w)"
| "forEach f (x # xs) w =
     (case f x w of
        (Some e, w1) \<Rightarrow> (Some e, w1)
      | (None, w1) \<Rightarrow> forEach f xs w1)"

text \<open>The call \<^verbatim>\<open>sub(...as)\<close> of a subscriber: logged, then run.\<close>

definition invoke ::
  "(subscriber \<Rightarrow> 'w listener) \<Rightarrow> container \<Rightarrow> subscriber \<Rightarrow> jsval list
     \<Rightarrow> 'w \<times> call list \<Rightarrow> exn option \<times> ('w \<times> call list)" where
  "invoke L c s as = (\<lambda>(w, calls).
     let (e, w1) = L s as c w in (e, (w1, calls @ [(s, as)])))"

definition notify ::
  "(subscriber \<Rightarrow> 'w listener) \<Rightarrow> container \<Rightarrow> 'w \<times> call list
     \<Rightarrow> exn option \<times> ('w \<times> call list)" where
  "notify L c = forEach (\<lambda>s. invoke L c s []) (subscribers c)"

section \<open>Provider\<close>

text \<open>
  The part of a mounted Provider its report handler works on: the state cell
  \<^verbatim>\<open>isReady\<close>, the Container it owns, and the caller's reference cell \<^verbatim>\<open>props.modelRef\<close>
  (absent, or its \<^verbatim>\<open>current\<close> value).
  \<^verbatim>\<open>
  const onChange = (value: V) => {
    if (!isReady) { setReady(true); }
    container.state = value;
    if (props.modelRef) { props.modelRef.current = value; }
    container.notify();
  };
  \<close>
\<close>

record provider =
  isReady :: bool
  container :: container
  modelRef :: "jsval option"

definition onChange ::
  "(subscriber \<Rightarrow> 'w listener) \<Rightarrow> jsval \<Rightarrow> provider \<Rightarrow> 'w \<times> call list
     \<Rightarrow> exn option \<times> provider \<times> ('w \<times> call list)" where
  "onChange L v p w =
     (let p1 = (if \<not> isReady p then p\<lparr>isReady := True\<rparr> else p);
          p2 = p1\<lparr>container := (container p1)\<lparr>state := v\<rparr>\<rparr>;
          p3 = (case modelRef p2 of None \<Rightarrow> p2 | Some old \<Rightarrow> p2\<lparr>modelRef := Some v\<rparr>);
          (e, w1) = notify L (container p3) w
      in (e, p3, w1))"

section \<open>The store: Container objects, contexts, and the models' context property\<close>

text \<open>
  Containers and React contexts are objects shared by reference. The store holds the
  Container objects (the address of one is its position), the contexts (each with its
  default value, the address of a Container), and the property \<^verbatim>\<open>context\<close> of every
  model function, keyed by the model's identity.
\<close>

record store =
  containers :: "container list"
  contexts :: "nat list"
  context_slot :: "nat \<Rightarrow> nat option"

text \<open>\<^verbatim>\<open>new Container(v)\<close> as an allocation, and \<^verbatim>\<open>React.createContext(d)\<close>.\<close>

definition alloc_Container :: "jsval \<Rightarrow> store \<Rightarrow> nat \<times> store" where
  "alloc_Container v st =
     (length (containers st), st\<lparr>containers := containers st @ [new_Container v]\<rparr>)"

definition createContext :: "nat \<Rightarrow> store \<Rightarrow> nat \<times> store" where
  "createContext d st = (length (contexts st), st\<lparr>contexts := contexts st @ [d]\<rparr>)"

text \<open>
  \<^verbatim>\<open>
  function getModelContext(model: Model, container?: Container<V>) {
    if (model.context) { return model.context; }
    const context = React.createContext<Container<V>>(container || new Container());
    model.context = context;
    return context;
  }
  \<close>
\<close>

definition getModelContext :: "'h model \<Rightarrow> nat option \<Rightarrow> store \<Rightarrow> nat \<times> store" where
  "getModelContext m c st =
     (case context_slot st (ident m) of
        Some k \<Rightarrow> (k, st)
      | None \<Rightarrow>
          (let (d, st1) = (case c of Some a \<Rightarrow> (a, st) | None \<Rightarrow> alloc_Container JUndefined st);
               (k, st2) = createContext d st1
           in (k, st2\<lparr>context_slot := (context_slot st2)(ident m \<mapsto> k)\<rparr>)))"

text \<open>
  \<^verbatim>\<open>useContext\<close>, the host framework's contract: the value of the nearest enclosing
  \<^verbatim>\<open><Context.Provider value=...>\<close> of that context, or the context's default value when
  there is none. The scope of a component lists the enclosing context providers,
  innermost first, as pairs of context and value.
\<close>

definition useContext :: "nat \<Rightarrow> (nat \<times> nat) list \<Rightarrow> store \<Rightarrow> nat" where
  "useContext k scope st = (case map_of scope k of Some a \<Rightarrow> a | None \<Rightarrow> contexts st ! k)"

section \<open>The consumer hook\<close>

text \<open>
  The hook cells of one \<^verbatim>\<open>useModel\<close> call: the state cell of \<^verbatim>\<open>useState\<close>, the reference
  cell of \<^verbatim>\<open>useRef\<close>, and the number of \<^verbatim>\<open>setState\<close> calls made so far.
\<close>

record consumer =
  cstate :: jsval
  depsRef :: "jsval list"
  setStates :: nat

definition setState :: "jsval \<Rightarrow> consumer \<Rightarrow> consumer" where
  "setState v k = k\<lparr>cstate := v, setStates := Suc (setStates k)\<rparr>"

definition not_initialized :: "'h model \<Rightarrow> exn" where
  "not_initialized m = Error (''The model '' @ name m @ '' is not initialized.'')"

text \<open>
  The render part of the hook. \<open>cells\<close> is \<open>None\<close> at the first render of the component
  (the cells are created: the state from \<^verbatim>\<open>container.state\<close>, the reference as \<^verbatim>\<open>[]\<close>) and
  the component's cells afterwards.
  \<^verbatim>\<open>
  const container = useContext(getModelContext(model)) as Container<V>;
  const [state, setState] = useState(container.state);
  const depsRef = useRef<unknown[]>([]);
  useEffect(..., []);
  if (!state) { throw new Error(`The model ${model.name} is not initialized.`); }
  return state;
  \<close>
\<close>

definition useModel ::
  "'h model \<Rightarrow> (nat \<times> nat) list \<Rightarrow> consumer option \<Rightarrow> store
     \<Rightarrow> (exn + jsval) \<times> consumer \<times> store" where
  "useModel m scope cells st =
     (let (ctx, st1) = getModelContext m None st;
          c = containers st1 ! useContext ctx scope st1;
          k = (case cells of
                 None \<Rightarrow> \<lparr>cstate = state c, depsRef = [], setStates = 0\<rparr>
               | Some k0 \<Rightarrow> k0)
      in (if \<not> truthy (cstate k) then Inl (not_initialized m) else Inr (cstate k), k, st1))"

text \<open>The Container a consumer of the model in that scope resolves to.\<close>

definition resolved :: "'h model \<Rightarrow> (nat \<times> nat) list \<Rightarrow> store \<Rightarrow> container" where
  "resolved m scope st =
     (let (ctx, st1) = getModelContext m None st
      in containers st1 ! useContext ctx scope st1)"

text \<open>
  The listener the effect of the hook registers. The projection \<^verbatim>\<open>deps\<close> is the caller's
  function: it returns a vector or throws.
  \<^verbatim>\<open>
  const subscriber = () => {
    if (!deps) {
      setState(container.state);
    } else {
      const oldDeps = depsRef.current;
      const newDeps = deps(container.state as V);
      if (newDeps.length && !isEquals(oldDeps, newDeps)) { setState(container.state); }
      depsRef.current = newDeps;
    }
  };
  \<close>
\<close>

definition subscriber ::
  "(jsval \<Rightarrow> exn + jsval list) option \<Rightarrow> container \<Rightarrow> consumer \<Rightarrow> exn option \<times> consumer" where
  "subscriber deps c k =
     (case deps of
        None \<Rightarrow> (None, setState (state c) k)
      | Some d \<Rightarrow>
          (let oldDeps = depsRef k in
           case d (state c) of
             Inl e \<Rightarrow> (Some e, k)
           | Inr newDeps \<Rightarrow>
               (let k1 = (if length newDeps \<noteq> 0 \<and> \<not> isEquals oldDeps newDeps
                          then setState (state c) k else k)
                in (None, k1\<lparr>depsRef := newDeps\<rparr>))))"

text \<open>
  The listeners the library registers on a Container: subscriber \<open>s\<close> is the closure of
  the consumer \<open>s\<close>, whose projection is \<open>deps_of s\<close>; the world is the hook cells of every
  consumer. The closure takes no parameters, so arguments passed to it are ignored.
\<close>

definition consumer_listener ::
  "(subscriber \<Rightarrow> (jsval \<Rightarrow> exn + jsval list) option) \<Rightarrow> subscriber
     \<Rightarrow> (subscriber \<Rightarrow> consumer) listener" where
  "consumer_listener deps_of s as c w =
     (let (e, k) = subscriber (deps_of s) c (w s) in (e, w(s := k)))"

section \<open>Providers\<close>

text \<open>
  An element tree: some node of the caller's, or a \<^verbatim>\<open>Provider\<close> element with its props
  and its children.
  \<^verbatim>\<open>
  function Providers(props) {
    return props.models.reverse().reduce((children, providerProps) => {
      return <Provider {...providerProps}>{children}</Provider>;
    }, props.children);
  }
  \<close>
  \<^verbatim>\<open>reverse\<close> reverses the array object in place and returns it, so the function returns
  the element together with the new contents of the caller's array.
\<close>

datatype ('p, 'c) element = Node 'c | Provider_element 'p "('p, 'c) element"

definition Providers :: "'p list \<Rightarrow> ('p, 'c) element \<Rightarrow> ('p, 'c) element \<times> 'p list" where
  "Providers models children =
     (let reversed = rev models
      in (foldl (\<lambda>children providerProps. Provider_element providerProps children)
            children reversed,
          reversed))"

text \<open>
  Nesting single Providers by hand, the first entry outermost:
  \<^verbatim>\<open><Provider {...p1}><Provider {...p2}>{children}</Provider></Provider>\<close>.
\<close>

fun nested :: "'p list \<Rightarrow> ('p, 'c) element \<Rightarrow> ('p, 'c) element" where
  "nested [] children = children"
| "nested (p # ps) children = Provider_element p (nested ps children)"

section \<open>withModel\<close>

text \<open>
  \<^verbatim>\<open>
  function withModel(models: { [name: string]: Model }, Component) {
    return function (props) {
      const modelList = {};
      for (let i = 0, keys = Object.keys(models); i < keys.length; i++) {
        const name = keys[i];
        const model = useModel(models[name]);
        modelList[name] = model;
      }
      const _props = { ...modelList, ...props };
      return <Component {..._props} />;
    };
  }
  \<close>
  The object \<^verbatim>\<open>models\<close> is the list of its properties in the order of \<^verbatim>\<open>Object.keys\<close>;
  \<^verbatim>\<open>modelList\<close>, \<^verbatim>\<open>props\<close> and \<^verbatim>\<open>_props\<close> are maps from property names to values, and the
  spread \<^verbatim>\<open>{...a, ...b}\<close> is \<open>a ++ b\<close>. The \<open>i\<close>-th call of \<^verbatim>\<open>useModel\<close> owns the \<open>i\<close>-th
  hook cells of the wrapping component. The result is the props \<^verbatim>\<open>Component\<close> is
  rendered with, or the exception of the first \<^verbatim>\<open>useModel\<close> that throws.
\<close>

fun useModels ::
  "(string \<times> 'h model) list \<Rightarrow> (nat \<times> nat) list \<Rightarrow> (nat \<Rightarrow> consumer option) \<Rightarrow> nat \<Rightarrow> store
     \<Rightarrow> (string \<rightharpoonup> jsval) \<Rightarrow> (exn + (string \<rightharpoonup> jsval)) \<times> (nat \<Rightarrow> consumer option) \<times> store" where
  "useModels [] scope cells i st modelList = (Inr modelList, cells, st)"
| "useModels ((key, m) # rest) scope cells i st modelList =
     (case useModel m scope (cells i) st of
        (Inl e, k, st1) \<Rightarrow> (Inl e, cells, st1)
      | (Inr v, k, st1) \<Rightarrow>
          useModels rest scope (cells(i := Some k)) (Suc i) st1 (modelList(key \<mapsto> v)))"

definition withModel ::
  "(string \<times> 'h model) list \<Rightarrow> (string \<rightharpoonup> jsval) \<Rightarrow> (nat \<times> nat) list
     \<Rightarrow> (nat \<Rightarrow> consumer option) \<Rightarrow> store
     \<Rightarrow> (exn + (string \<rightharpoonup> jsval)) \<times> (nat \<Rightarrow> consumer option) \<times> store" where
  "withModel models props scope cells st =
     (case useModels models scope cells 0 st Map.empty of
        (Inl e, cells1, st1) \<Rightarrow> (Inl e, cells1, st1)
      | (Inr modelList, cells1, st1) \<Rightarrow> (Inr (modelList ++ props), cells1, st1))"

section \<open>Properties of the equality comparator and the Processor\<close>








section \<open>Properties of the Container\<close>

text \<open>
  The listener list of a Container holds no listener twice: this holds of a new Container
  and is kept by \<^verbatim>\<open>sub\<close> and \<^verbatim>\<open>unsub\<close>.
\<close>

lemma distinct_new_Container: "distinct (subscribers (new_Container v))"
  by (simp add: new_Container_def)


lemma distinct_unsub: "distinct (subscribers c) \<Longrightarrow> distinct (subscribers (unsub c s))"
  by (simp add: unsub_def distinct_removeAll)


lemma set_subscribers_unsub: "set (subscribers (unsub c s)) = set (subscribers c) - {s}"
  by (auto simp: unsub_def)





lemma invoke_apply:
  "invoke L c s as (w, calls) = (fst (L s as c w), (snd (L s as c w), calls @ [(s, as)]))"
  by (simp add: invoke_def split: prod.splits)

lemma forEach_invoke_no_throw:
  "\<forall>s \<in> set xs. \<forall>w. fst (L s as c w) = None \<Longrightarrow>
   forEach (\<lambda>s. invoke L c s as) xs (w, calls) =
     (None, (fold (\<lambda>s w. snd (L s as c w)) xs w, calls @ map (\<lambda>s. (s, as)) xs))"
proof (induction xs arbitrary: w calls)
  case Nil
  show ?case by simp
next
  case (Cons x xs)
  from Cons.prems obtain w1 where x: "L x as c w = (None, w1)"
    by (cases "L x as c w") (auto dest: bspec [where x = x] spec [where x = w])
  from Cons.prems have rest: "\<forall>s \<in> set xs. \<forall>w. fst (L s as c w) = None" by simp
  show ?case
    by (simp add: invoke_apply x Cons.IH [OF rest])
qed

lemma forEach_append:
  "forEach f (xs @ ys) w =
     (case forEach f xs w of (Some e, w1) \<Rightarrow> (Some e, w1) | (None, w1) \<Rightarrow> forEach f ys w1)"
  by (induction xs arbitrary: w) (auto split: prod.splits option.splits)

lemma forEach_invoke_throws:
  assumes "\<forall>s \<in> set pre. \<forall>w. fst (L s as c w) = None"
    and "fst (L x as c (fold (\<lambda>s w. snd (L s as c w)) pre w)) = Some e"
  shows "forEach (\<lambda>s. invoke L c s as) (pre @ x # post) (w, calls) =
     (Some e, (snd (L x as c (fold (\<lambda>s w. snd (L s as c w)) pre w)),
               calls @ map (\<lambda>s. (s, as)) (pre @ [x])))"
proof -
  obtain w1 where x: "L x as c (fold (\<lambda>s w. snd (L s as c w)) pre w) = (Some e, w1)"
    using assms(2) by (cases "L x as c (fold (\<lambda>s w. snd (L s as c w)) pre w)") auto
  have pre: "forEach (\<lambda>s. invoke L c s as) pre (w, calls) =
     (None, (fold (\<lambda>s w. snd (L s as c w)) pre w, calls @ map (\<lambda>s. (s, as)) pre))"
    using assms(1) by (rule forEach_invoke_no_throw)
  show ?thesis
    by (simp add: forEach_append pre invoke_apply x)
qed



text \<open>
  C6, as the claim states it, does not hold. \<^verbatim>\<open>notify\<close> has no exception handler, so the
  exception of a listener leaves \<^verbatim>\<open>forEach\<close>. Here a Provider's Container holds the value 7
  and the listeners of two consumers; the projection of consumer 0 throws. The call log
  of \<^verbatim>\<open>notify\<close> holds the call of listener 0 only: listener 1 is not called, the exception
  propagates, and consumer 1 keeps the value 5 it had.
\<close>

theorem notify_aborted_by_throwing_listener:
  "snd (snd (notify
      (consumer_listener (\<lambda>s. if s = 0 then Some (\<lambda>v. Inl (Thrown JNull)) else None))
      \<lparr>state = JNum 7, subscribers = [0, 1]\<rparr>
      (\<lambda>s. \<lparr>cstate = JNum 5, depsRef = [], setStates = 0\<rparr>, []))) = [(0, [])]
   \<and> fst (notify
      (consumer_listener (\<lambda>s. if s = 0 then Some (\<lambda>v. Inl (Thrown JNull)) else None))
      \<lparr>state = JNum 7, subscribers = [0, 1]\<rparr>
      (\<lambda>s. \<lparr>cstate = JNum 5, depsRef = [], setStates = 0\<rparr>, [])) = Some (Thrown JNull)
   \<and> cstate (fst (snd (notify
      (consumer_listener (\<lambda>s. if s = 0 then Some (\<lambda>v. Inl (Thrown JNull)) else None))
      \<lparr>state = JNum 7, subscribers = [0, 1]\<rparr>
      (\<lambda>s. \<lparr>cstate = JNum 5, depsRef = [], setStates = 0\<rparr>, []))) 1) = JNum 5"
  by (simp add: notify_def invoke_def consumer_listener_def subscriber_def)

text \<open>
  C6, amended. When the listener \<open>x\<close> is the first that throws (the listeners \<open>pre\<close>
  registered before it return normally, and \<open>x\<close> throws \<open>e\<close> in the world they leave),
  \<^verbatim>\<open>notify\<close> throws \<open>e\<close>, it has called the listeners \<open>pre\<close> and \<open>x\<close>, in order, and none of
  the listeners \<open>post\<close> registered after \<open>x\<close>.
\<close>

theorem notify_stops_at_first_exception:
  assumes "distinct (subscribers c)"
    and "subscribers c = pre @ x # post"
    and "\<forall>s \<in> set pre. \<forall>w. fst (L s [] c w) = None"
    and "fst (L x [] c (fold (\<lambda>s w. snd (L s [] c w)) pre w)) = Some e"
  shows "fst (notify L c (w, [])) = Some e
       \<and> snd (snd (notify L c (w, []))) = map (\<lambda>s. (s, [])) (pre @ [x])
       \<and> (\<forall>s \<in> set post. s \<notin> fst ` set (snd (snd (notify L c (w, [])))))"
proof -
  have run: "notify L c (w, []) =
      (Some e, (snd (L x [] c (fold (\<lambda>s w. snd (L s [] c w)) pre w)),
                [] @ map (\<lambda>s. (s, [])) (pre @ [x])))"
    unfolding notify_def assms(2) using assms(3,4) by (rule forEach_invoke_throws)
  have "set post \<inter> set (pre @ [x]) = {}"
    using assms(1) unfolding assms(2) by auto
  then show ?thesis
    by (auto simp: run image_iff)
qed

text \<open>
  The theorem at the Container of the example above: listener 0 throws, so \<^verbatim>\<open>notify\<close>
  throws and listener 1 is not among the calls.
\<close>

theorem notify_stops_at_first_exception_witness:
  "distinct (subscribers \<lparr>state = JNum 7, subscribers = [0, 1]\<rparr>)
   \<and> fst (notify
      (consumer_listener (\<lambda>s. if s = 0 then Some (\<lambda>v. Inl (Thrown JNull)) else None))
      \<lparr>state = JNum 7, subscribers = [0, 1]\<rparr>
      (\<lambda>s. \<lparr>cstate = JNum 5, depsRef = [], setStates = 0\<rparr>, [])) = Some (Thrown JNull)
   \<and> 1 \<notin> fst ` set (snd (snd (notify
      (consumer_listener (\<lambda>s. if s = 0 then Some (\<lambda>v. Inl (Thrown JNull)) else None))
      \<lparr>state = JNum 7, subscribers = [0, 1]\<rparr>
      (\<lambda>s. \<lparr>cstate = JNum 5, depsRef = [], setStates = 0\<rparr>, []))))"
  using notify_stops_at_first_exception
    [of "\<lparr>state = JNum 7, subscribers = [0, 1]\<rparr>" "[]" 0 "[1]"
        "consumer_listener (\<lambda>s. if s = 0 then Some (\<lambda>v. Inl (Thrown JNull)) else None)"
        "\<lambda>s. \<lparr>cstate = JNum 5, depsRef = [], setStates = 0\<rparr>" "Thrown JNull"]
  by (simp add: consumer_listener_def subscriber_def)

section \<open>Properties of the Provider\<close>

text \<open>
  C4. Whatever the value \<open>v\<close> reported and whatever the Provider's state (so also when
  \<open>v\<close> is the value the Container holds already): after \<^verbatim>\<open>onChange\<close> the Container holds
  \<open>v\<close>, its listeners are the same, the caller's reference cell holds \<open>v\<close> if there is one,
  and the result of \<^verbatim>\<open>onChange\<close> is that of \<^verbatim>\<open>notify\<close> on the Container as written, so the
  listeners see \<open>v\<close>. If no listener throws, every registered listener has been called
  once, in order, with no arguments. No comparison with the previous value is made.
\<close>

theorem onChange_writes_mirrors_notifies:
  assumes "onChange L v p (w, calls) = (e, p', w', calls')"
  shows "state (container p') = v
       \<and> subscribers (container p') = subscribers (container p)
       \<and> modelRef p' = (case modelRef p of None \<Rightarrow> None | Some old \<Rightarrow> Some v)
       \<and> isReady p'
       \<and> notify L (container p') (w, calls) = (e, w', calls')
       \<and> ((\<forall>s \<in> set (subscribers (container p)). \<forall>u. fst (L s [] (container p') u) = None) \<longrightarrow>
            e = None \<and> calls' = calls @ map (\<lambda>s. (s, [])) (subscribers (container p)))"
proof -
  let ?p3 = "(case modelRef p of
               None \<Rightarrow> p\<lparr>isReady := True, container := (container p)\<lparr>state := v\<rparr>\<rparr>
             | Some old \<Rightarrow> p\<lparr>isReady := True, container := (container p)\<lparr>state := v\<rparr>,
                               modelRef := Some v\<rparr>)"
  have run: "onChange L v p (w, calls) =
      (fst (notify L (container ?p3) (w, calls)), ?p3, snd (notify L (container ?p3) (w, calls)))"
    by (cases "isReady p")
       (auto simp: onChange_def Let_def split: prod.splits option.splits)
  from assms have p': "p' = ?p3"
    by (simp add: run)
  from assms have n: "notify L (container p') (w, calls) = (e, w', calls')"
    unfolding run by (cases "notify L (container ?p3) (w, calls)") auto
  have fields: "state (container p') = v"
    "subscribers (container p') = subscribers (container p)"
    "modelRef p' = (case modelRef p of None \<Rightarrow> None | Some old \<Rightarrow> Some v)"
    "isReady p'"
    by (simp_all add: p' split: option.splits)
  have quiet: "e = None \<and> calls' = calls @ map (\<lambda>s. (s, [])) (subscribers (container p))"
    if "\<forall>s \<in> set (subscribers (container p)). \<forall>u. fst (L s [] (container p') u) = None"
  proof -
    have "notify L (container p') (w, calls) =
        (None, (fold (\<lambda>s w. snd (L s [] (container p') w)) (subscribers (container p')) w,
                calls @ map (\<lambda>s. (s, [])) (subscribers (container p'))))"
      unfolding notify_def using that fields(2) by (intro forEach_invoke_no_throw) simp
    with n show ?thesis by (simp add: fields(2))
  qed
  show ?thesis
    using fields n quiet by blast
qed

text \<open>
  The theorem at a report of the value 1 to a Provider whose Container holds 1 already,
  with a reference cell and two consumers without projection: both listeners are called
  and both consumers set their state once more.
\<close>

theorem onChange_writes_mirrors_notifies_witness:
  "onChange (consumer_listener (\<lambda>s. None)) (JNum 1)
      \<lparr>isReady = True, container = \<lparr>state = JNum 1, subscribers = [4, 2]\<rparr>, modelRef = Some JUndefined\<rparr>
      (\<lambda>s. \<lparr>cstate = JNum 1, depsRef = [], setStates = 0\<rparr>, [])
    = (None,
       \<lparr>isReady = True, container = \<lparr>state = JNum 1, subscribers = [4, 2]\<rparr>, modelRef = Some (JNum 1)\<rparr>,
       (\<lambda>s. \<lparr>cstate = JNum 1, depsRef = [], setStates = 0\<rparr>)
         (4 := \<lparr>cstate = JNum 1, depsRef = [], setStates = 1\<rparr>,
          2 := \<lparr>cstate = JNum 1, depsRef = [], setStates = 1\<rparr>),
       [(4, []), (2, [])])
   \<and> snd (snd (snd (onChange (consumer_listener (\<lambda>s. None)) (JNum 1)
      \<lparr>isReady = True, container = \<lparr>state = JNum 1, subscribers = [4, 2]\<rparr>, modelRef = Some JUndefined\<rparr>
      (\<lambda>s. \<lparr>cstate = JNum 1, depsRef = [], setStates = 0\<rparr>, [])))) = [] @ map (\<lambda>s. (s, [])) [4, 2]"
proof -
  have run: "onChange (consumer_listener (\<lambda>s. None)) (JNum 1)
      \<lparr>isReady = True, container = \<lparr>state = JNum 1, subscribers = [4, 2]\<rparr>, modelRef = Some JUndefined\<rparr>
      (\<lambda>s. \<lparr>cstate = JNum 1, depsRef = [], setStates = 0\<rparr>, [])
    = (None,
       \<lparr>isReady = True, container = \<lparr>state = JNum 1, subscribers = [4, 2]\<rparr>, modelRef = Some (JNum 1)\<rparr>,
       (\<lambda>s. \<lparr>cstate = JNum 1, depsRef = [], setStates = 0\<rparr>)
         (4 := \<lparr>cstate = JNum 1, depsRef = [], setStates = 1\<rparr>,
          2 := \<lparr>cstate = JNum 1, depsRef = [], setStates = 1\<rparr>),
       [(4, []), (2, [])])"
    by (simp add: onChange_def notify_def invoke_def consumer_listener_def subscriber_def
        setState_def Let_def)
  from onChange_writes_mirrors_notifies [OF run] show ?thesis
    by (simp add: run consumer_listener_def subscriber_def)
qed

section \<open>Properties of the consumer's listener\<close>



section \<open>Properties of the consumer hook\<close>

lemma useModel_eq:
  "useModel m scope cells st =
     (let k = (case cells of
                 None \<Rightarrow> \<lparr>cstate = state (resolved m scope st), depsRef = [], setStates = 0\<rparr>
               | Some k0 \<Rightarrow> k0)
      in (if \<not> truthy (cstate k) then Inl (not_initialized m) else Inr (cstate k),
          k, snd (getModelContext m None st)))"
  by (cases "getModelContext m None st"; cases cells)
     (simp_all add: useModel_def resolved_def Let_def)

text \<open>
  What a consumer resolves to. Once the model's context is set, it is the Container of
  the nearest enclosing Provider of that context, or the context's default Container when
  the consumer has no such ancestor. For a model whose context is not set yet (no
  Provider of it was ever rendered), the hook creates the context with a new Container
  as default, whose value is absent, and the first render raises.
\<close>

lemma resolved_bound:
  "context_slot st (ident m) = Some k \<Longrightarrow>
   resolved m scope st =
     containers st ! (case map_of scope k of Some a \<Rightarrow> a | None \<Rightarrow> contexts st ! k)"
  by (simp add: resolved_def getModelContext_def useContext_def)

lemma resolved_unbound:
  "context_slot st (ident m) = None \<Longrightarrow> map_of scope (length (contexts st)) = None \<Longrightarrow>
   resolved m scope st = new_Container JUndefined"
  by (simp add: resolved_def getModelContext_def useContext_def alloc_Container_def
      createContext_def)

lemma useModel_without_any_Provider_raises:
  "context_slot st (ident m) = None \<Longrightarrow> map_of scope (length (contexts st)) = None \<Longrightarrow>
   fst (useModel m scope None st) = Inl (not_initialized m)"
  by (simp add: useModel_eq resolved_unbound new_Container_def)




section \<open>Properties of the channel resolution\<close>

text \<open>
  C7. For a model whose \<^verbatim>\<open>context\<close> property is not set, \<^verbatim>\<open>getModelContext\<close> with the
  container argument \<open>c1\<close> creates a new context: its default value is \<open>c1\<close> when one is
  given, and otherwise a new Container, with no value and no listeners, allocated by the
  call; the context is stored in the model's property. A second call for the model, with
  any container argument \<open>c2\<close>, returns the same context and changes nothing. In general,
  once the property is set to \<open>k\<close>, every call returns \<open>k\<close> and leaves the store as it is.
\<close>

theorem getModelContext_first_writer_wins:
  "(context_slot st (ident m) = None \<longrightarrow>
      fst (getModelContext m c1 st) = length (contexts st)
    \<and> contexts (snd (getModelContext m c1 st)) =
        contexts st @ [case c1 of Some a \<Rightarrow> a | None \<Rightarrow> length (containers st)]
    \<and> containers (snd (getModelContext m c1 st)) =
        (case c1 of Some a \<Rightarrow> containers st
                  | None \<Rightarrow> containers st @ [\<lparr>state = JUndefined, subscribers = []\<rparr>])
    \<and> context_slot (snd (getModelContext m c1 st)) =
        (context_slot st)(ident m \<mapsto> length (contexts st))
    \<and> getModelContext m c2 (snd (getModelContext m c1 st)) = getModelContext m c1 st)
   \<and> (\<forall>k. context_slot st (ident m) = Some k \<longrightarrow> getModelContext m c2 st = (k, st))"
  by (auto simp: getModelContext_def alloc_Container_def createContext_def new_Container_def
      split: option.splits)

text \<open>
  The theorem on the empty store: the first call, without a container, creates context 0
  with a new empty Container as default; the second call, with container 5, returns
  context 0 again.
\<close>

theorem getModelContext_first_writer_wins_witness:
  "context_slot \<lparr>containers = [], contexts = [], context_slot = (\<lambda>i. None)\<rparr>
      (ident \<lparr>ident = 0, name = ''M'', body = (\<lambda>a (hs::unit). (Inr JNull, hs))\<rparr>) = None
   \<and> fst (getModelContext \<lparr>ident = 0, name = ''M'', body = (\<lambda>a (hs::unit). (Inr JNull, hs))\<rparr>
        None \<lparr>containers = [], contexts = [], context_slot = (\<lambda>i. None)\<rparr>) = 0
   \<and> contexts (snd (getModelContext
        \<lparr>ident = 0, name = ''M'', body = (\<lambda>a (hs::unit). (Inr JNull, hs))\<rparr>
        None \<lparr>containers = [], contexts = [], context_slot = (\<lambda>i. None)\<rparr>)) = [0]
   \<and> containers (snd (getModelContext
        \<lparr>ident = 0, name = ''M'', body = (\<lambda>a (hs::unit). (Inr JNull, hs))\<rparr>
        None \<lparr>containers = [], contexts = [], context_slot = (\<lambda>i. None)\<rparr>)) =
       [\<lparr>state = JUndefined, subscribers = []\<rparr>]
   \<and> getModelContext \<lparr>ident = 0, name = ''M'', body = (\<lambda>a (hs::unit). (Inr JNull, hs))\<rparr>
        (Some 5)
        (snd (getModelContext \<lparr>ident = 0, name = ''M'', body = (\<lambda>a (hs::unit). (Inr JNull, hs))\<rparr>
           None \<lparr>containers = [], contexts = [], context_slot = (\<lambda>i. None)\<rparr>))
     = getModelContext \<lparr>ident = 0, name = ''M'', body = (\<lambda>a (hs::unit). (Inr JNull, hs))\<rparr>
        None \<lparr>containers = [], contexts = [], context_slot = (\<lambda>i. None)\<rparr>"
  using getModelContext_first_writer_wins
    [of "\<lparr>containers = [], contexts = [], context_slot = (\<lambda>i. None)\<rparr>"
        "\<lparr>ident = 0, name = ''M'', body = (\<lambda>a (hs::unit). (Inr JNull, hs))\<rparr>"
        None "Some 5"]
  by simp

section \<open>Properties of Providers\<close>

lemma foldl_Provider_element:
  "foldl (\<lambda>children providerProps. Provider_element providerProps children) children (rev ps)
     = nested ps children"
  by (induction ps) simp_all

lemma foldl_Provider_element_rev:
  "foldl (\<lambda>children providerProps. Provider_element providerProps children) children ps
     = nested (rev ps) children"
  using foldl_Provider_element [of children "rev ps"] by simp

text \<open>
  C8. The element \<^verbatim>\<open>Providers\<close> returns for the array contents \<open>models\<close> it is called with is
  the nesting by hand of single Providers, the first entry outermost and the last entry
  innermost around the children.
\<close>

theorem Providers_nests_first_entry_outermost:
  "fst (Providers models children) = nested models children"
  by (simp add: Providers_def foldl_Provider_element)

text \<open>
  C9. \<^verbatim>\<open>Providers\<close> leaves the caller's array reversed; a second call on the same array
  object therefore nests in the opposite order, the last entry of the original list
  outermost.
\<close>

theorem Providers_reverses_models_in_place:
  "snd (Providers models children) = rev models
   \<and> fst (Providers (snd (Providers models children)) children2) = nested (rev models) children2"
  by (simp add: Providers_def foldl_Provider_element_rev)

section \<open>Properties of withModel\<close>

lemma useModel_Inr:
  "useModel m scope cells st = (Inr v, k, st1) \<Longrightarrow> v = cstate k \<and> truthy v"
  by (auto simp: useModel_eq Let_def split: if_splits)

lemma useModels_Inr:
  "useModels ms scope cells i st ml = (Inr ml', cells', st') \<Longrightarrow>
     dom ml' = dom ml \<union> fst ` set ms
   \<and> (\<forall>key. key \<notin> fst ` set ms \<longrightarrow> ml' key = ml key)
   \<and> (\<forall>j < i. cells' j = cells j)
   \<and> (distinct (map fst ms) \<longrightarrow>
        (\<forall>j < length ms. \<exists>k. cells' (i + j) = Some k \<and> truthy (cstate k)
            \<and> ml' (fst (ms ! j)) = Some (cstate k)))"
proof (induction ms arbitrary: cells i st ml)
  case Nil
  then show ?case by simp
next
  case (Cons a rest)
  obtain key m where a: "a = (key, m)" by (cases a)
  obtain r k st1 where um: "useModel m scope (cells i) st = (r, k, st1)"
    by (cases "useModel m scope (cells i) st")
  from Cons.prems a um obtain v where r: "r = Inr v"
    by (cases r) auto
  from um r have v: "v = cstate k" "truthy v"
    using useModel_Inr by blast+
  from Cons.prems a um r
  have rest: "useModels rest scope (cells(i := Some k)) (Suc i) st1 (ml(key \<mapsto> v))
      = (Inr ml', cells', st')"
    by simp
  note IH = Cons.IH [OF rest]
  from IH have dom: "dom ml' = dom ml \<union> fst ` set (a # rest)"
    by (auto simp: a)
  from IH have frame: "\<forall>key'. key' \<notin> fst ` set (a # rest) \<longrightarrow> ml' key' = ml key'"
    by (auto simp: a)
  from IH have cells_i: "cells' i = Some k" and cells_lt: "\<forall>j < i. cells' j = cells j"
    by auto
  have inj: "\<forall>j < length (a # rest). \<exists>k. cells' (i + j) = Some k \<and> truthy (cstate k)
      \<and> ml' (fst ((a # rest) ! j)) = Some (cstate k)"
    if d: "distinct (map fst (a # rest))"
  proof (intro allI impI)
    fix j assume j: "j < length (a # rest)"
    show "\<exists>k. cells' (i + j) = Some k \<and> truthy (cstate k)
      \<and> ml' (fst ((a # rest) ! j)) = Some (cstate k)"
    proof (cases j)
      case 0
      from d have "key \<notin> fst ` set rest" by (simp add: a)
      with IH have "ml' key = Some v" by simp
      with cells_i v show ?thesis by (simp add: 0 a)
    next
      case (Suc j')
      from d have "distinct (map fst rest)" by simp
      with IH j Suc show ?thesis by simp
    qed
  qed
  show ?case
    using dom frame cells_lt inj by blast
qed

text \<open>
  C10. When the wrapping component renders \<^verbatim>\<open>Component\<close> (no \<^verbatim>\<open>useModel\<close> call raised), the
  props \<open>P\<close> it passes have exactly the keys of \<^verbatim>\<open>models\<close> and of the caller's props; every
  caller's prop keeps the caller's value, also under a name that is a key of \<^verbatim>\<open>models\<close>;
  and every key of \<^verbatim>\<open>models\<close> the caller did not supply carries the value its \<^verbatim>\<open>useModel\<close>
  call returned, the local state of that call's hook cells. (The keys of an object are
  distinct.)
\<close>

theorem withModel_injects_models_caller_props_override:
  assumes "withModel models props scope cells st = (Inr P, cells', st')"
  shows "dom P = fst ` set models \<union> dom props
       \<and> (\<forall>key v. props key = Some v \<longrightarrow> P key = Some v)
       \<and> (distinct (map fst models) \<longrightarrow>
            (\<forall>j < length models. props (fst (models ! j)) = None \<longrightarrow>
               (\<exists>k. cells' j = Some k \<and> truthy (cstate k)
                    \<and> P (fst (models ! j)) = Some (cstate k))))"
proof -
  from assms obtain modelList where
    run: "useModels models scope cells 0 st Map.empty = (Inr modelList, cells', st')"
    and P: "P = modelList ++ props"
    by (auto simp: withModel_def split: prod.splits sum.splits)
  note facts = useModels_Inr [OF run]
  from facts have "dom P = fst ` set models \<union> dom props"
    by (auto simp: P)
  moreover have "\<forall>key v. props key = Some v \<longrightarrow> P key = Some v"
    by (simp add: P map_add_Some_iff)
  moreover have "\<forall>j < length models. props (fst (models ! j)) = None \<longrightarrow>
       (\<exists>k. cells' j = Some k \<and> truthy (cstate k) \<and> P (fst (models ! j)) = Some (cstate k))"
    if "distinct (map fst models)"
    using facts that by (auto simp: P map_add_def)
  ultimately show ?thesis by blast
qed

text \<open>
  The theorem for the models \<^verbatim>\<open>{counter, user}\<close>, whose Containers hold 1 and 2, and the
  caller's props \<^verbatim>\<open>{counter: 9}\<close>: the component receives \<^verbatim>\<open>counter = 9\<close> and \<^verbatim>\<open>user = 2\<close>.
\<close>

theorem withModel_injects_models_caller_props_override_witness:
  "(case fst (withModel [(''counter'', \<lparr>ident = 0, name = ''Counter'', body = (\<lambda>a (hs::unit). (Inr JNull, hs))\<rparr>),
         (''user'', \<lparr>ident = 1, name = ''User'', body = (\<lambda>a (hs::unit). (Inr JNull, hs))\<rparr>)] [''counter'' \<mapsto> JNum 9] [(1, 1), (0, 0)] (\<lambda>i. None) \<lparr>containers = [\<lparr>state = JNum 1, subscribers = []\<rparr>, \<lparr>state = JNum 2, subscribers = []\<rparr>],
          contexts = [0, 1],
          context_slot = (\<lambda>i. if i = 0 then Some 0 else if i = 1 then Some 1 else None)\<rparr>) of
      Inl e \<Rightarrow> False
    | Inr P \<Rightarrow> P ''counter'' = Some (JNum 9) \<and> P ''user'' = Some (JNum 2)
               \<and> dom P = {''counter'', ''user''})"
proof -
  have run: "withModel [(''counter'', \<lparr>ident = 0, name = ''Counter'', body = (\<lambda>a (hs::unit). (Inr JNull, hs))\<rparr>),
         (''user'', \<lparr>ident = 1, name = ''User'', body = (\<lambda>a (hs::unit). (Inr JNull, hs))\<rparr>)] [''counter'' \<mapsto> JNum 9] [(1, 1), (0, 0)] (\<lambda>i. None) \<lparr>containers = [\<lparr>state = JNum 1, subscribers = []\<rparr>, \<lparr>state = JNum 2, subscribers = []\<rparr>],
          contexts = [0, 1],
          context_slot = (\<lambda>i. if i = 0 then Some 0 else if i = 1 then Some 1 else None)\<rparr> =
      (Inr [''user'' \<mapsto> JNum 2, ''counter'' \<mapsto> JNum 9],
       (\<lambda>i. None)(0 \<mapsto> \<lparr>cstate = JNum 1, depsRef = [], setStates = 0\<rparr>,
                    1 \<mapsto> \<lparr>cstate = JNum 2, depsRef = [], setStates = 0\<rparr>),
       \<lparr>containers = [\<lparr>state = JNum 1, subscribers = []\<rparr>, \<lparr>state = JNum 2, subscribers = []\<rparr>],
          contexts = [0, 1],
          context_slot = (\<lambda>i. if i = 0 then Some 0 else if i = 1 then Some 1 else None)\<rparr>)"
    by (simp add: withModel_def useModel_def getModelContext_def useContext_def)
  from withModel_injects_models_caller_props_override [OF run]
  have "[''user'' \<mapsto> JNum 2, ''counter'' \<mapsto> JNum 9] ''counter'' = Some (JNum 9)"
    by simp
  then show ?thesis
    unfolding run by auto
qed

end
